theory Spec2Isabelle
  imports Complex_Main "HOL-Library.Multiset" "HOL-Library.Product_Lexorder"
begin

section \<open>Option chains and positions\<close>

text \<open>
  The two regression algorithms (\<^verbatim>\<open>LongAndShortStraddleStrategiesAlgorithm.py\<close> and
  \<^verbatim>\<open>LongAndShortStrangleStrategiesAlgorithm.py\<close>) read three attributes of an option
  contract: \<^verbatim>\<open>Right\<close>, \<^verbatim>\<open>Strike\<close> (a decimal) and \<^verbatim>\<open>Expiry\<close> (a date, here a day
  number). A chain is enumerated in some order and carries the price of its underlying.
\<close>

datatype OptionRight = Call | Put

record OptionContract =
  Right :: OptionRight
  Strike :: rat
  Expiry :: int

record OptionChain =
  UnderlyingPrice :: rat
  Contracts :: "OptionContract list"

text \<open>
  A position of a position group: \<^verbatim>\<open>position.Symbol.ID.OptionRight\<close> and
  \<^verbatim>\<open>position.Quantity\<close>. The buying power model of a group is either the one the
  algorithms expect or another one, known by the name of its type.
\<close>

datatype BuyingPowerModel =
  OptionStrategyPositionGroupBuyingPowerModel
| OtherBuyingPowerModel string

record Position =
  SymbolOptionRight :: OptionRight
  Quantity :: int

record PositionGroup =
  GroupBuyingPowerModel :: BuyingPowerModel
  Positions :: "Position list"

datatype OrderStatus =
  New | Submitted | PartiallyFilled | Filled | Canceled | Invalid

record AlgorithmState =
  Invested :: bool
  Orders :: "OrderStatus list"

text \<open>
  Every \<^verbatim>\<open>raise Exception(...)\<close> of the source is a value of this type; the arguments
  are the data the message of the exception prints.
\<close>

datatype failure =
  MISMATCHED_ACCOUNTING_MODEL BuyingPowerModel
| UNEXPECTED_LEG_COUNT nat
| MISSING_LEG OptionRight
| QUANTITY_MISMATCH OptionRight int int
| RESIDUAL_POSITION
| ORDER_COUNT_MISMATCH nat

section \<open>The Python primitives the algorithms use\<close>

text \<open>
  \<^verbatim>\<open>sorted(xs, key=k)\<close> is a stable ascending sort. \<^verbatim>\<open>sorted(xs, key=k, reverse=True)\<close>
  is a stable descending sort: elements with equal keys keep their order (the list is
  reversed, sorted and reversed again).
\<close>

definition sorted_py :: "('a \<Rightarrow> 'k::linorder) \<Rightarrow> 'a list \<Rightarrow> 'a list" where
  "sorted_py key xs = sort_key key xs"

definition sorted_py_reverse :: "('a \<Rightarrow> 'k::linorder) \<Rightarrow> 'a list \<Rightarrow> 'a list" where
  "sorted_py_reverse key xs = rev (sort_key key (rev xs))"

text \<open>
  \<^verbatim>\<open>itertools.groupby(xs, key)\<close> starts a new group each time the key changes: a group
  is a maximal run of consecutive elements with the same key.
\<close>

function groupby :: "('a \<Rightarrow> 'k) \<Rightarrow> 'a list \<Rightarrow> ('k \<times> 'a list) list" where
  "groupby key [] = []"
| "groupby key (x # xs) =
     (key x, x # takeWhile (\<lambda>y. key y = key x) xs)
       # groupby key (dropWhile (\<lambda>y. key y = key x) xs)"
  by pat_completeness auto
termination
  by (relation "measure (\<lambda>(key, xs). length xs)")
     (auto simp: length_dropWhile_le less_Suc_eq_le)

text \<open>\<^verbatim>\<open>next((p for p in ps if cond(p)), None)\<close>\<close>

definition next_or_None :: "('a \<Rightarrow> bool) \<Rightarrow> 'a list \<Rightarrow> 'a option" where
  "next_or_None cond ps = List.find cond ps"

section \<open>Contract selection\<close>

text \<open>
  Prices and strikes are floats in the Python source, so the key of the first sort,
  \<^verbatim>\<open>abs(chain.Underlying.Price - x.Strike)\<close>, is computed in float arithmetic: the
  subtraction rounds. The model does not fix the rounding. Every function that sorts the
  chain takes the parameter \<open>distance\<close>, where \<open>distance price strike\<close> stands for the
  value that \<^verbatim>\<open>abs(price - strike)\<close> evaluates to; the theorems hold for every such
  function, hence for the one of the float arithmetic. Prices and strikes themselves are
  the rational numbers the (finite) floats denote, and their comparisons are exact.

  Where the difference of the two operands is itself a float, as for the small integers of
  the examples below, the subtraction is exact and the key is \<open>exact_distance\<close>.
\<close>

definition exact_distance :: "rat \<Rightarrow> rat \<Rightarrow> rat" where
  "exact_distance price strike = \<bar>price - strike\<bar>"

text \<open>
  Lines 39-40 of both files: the chain is sorted by the distance of the strike from the
  price of the underlying, and the result is sorted again by expiry, descending.
\<close>

definition contracts :: "(rat \<Rightarrow> rat \<Rightarrow> rat) \<Rightarrow> OptionChain \<Rightarrow> OptionContract list" where
  "contracts distance chain =
     sorted_py_reverse Expiry
       (sorted_py (\<lambda>x. distance (UnderlyingPrice chain) (Strike x)) (Contracts chain))"

subsection \<open>Straddle: \<^verbatim>\<open>LongAndShortStraddleStrategiesAlgorithm.OnData\<close>, lines 39-54\<close>

definition has_call_and_put :: "OptionContract list \<Rightarrow> bool" where
  "has_call_and_put grp \<longleftrightarrow>
     list_ex (\<lambda>contract. Right contract = Call) grp \<and>
     list_ex (\<lambda>contract. Right contract = Put) grp"

definition straddle_groupedContracts ::
  "(rat \<Rightarrow> rat \<Rightarrow> rat) \<Rightarrow> OptionChain \<Rightarrow> OptionContract list list" where
  "straddle_groupedContracts distance chain =
     filter has_call_and_put
       (map snd (groupby (\<lambda>x. (Strike x, Expiry x)) (contracts distance chain)))"

text \<open>
  \<^verbatim>\<open>next(groupedContracts, [])\<close>, the return on an empty group, and the strike and expiry
  of \<^verbatim>\<open>contracts[0]\<close> that \<^verbatim>\<open>OptionStrategies.Straddle\<close> is built from.
\<close>

definition straddle_select ::
  "(rat \<Rightarrow> rat \<Rightarrow> rat) \<Rightarrow> OptionChain \<Rightarrow> (rat \<times> int) option" where
  "straddle_select distance chain =
     (case (case straddle_groupedContracts distance chain of [] \<Rightarrow> [] | grp # _ \<Rightarrow> grp) of
        [] \<Rightarrow> None
      | contract # _ \<Rightarrow> Some (Strike contract, Expiry contract))"

subsection \<open>Strangle: \<^verbatim>\<open>LongAndShortStrangleStrategiesAlgorithm.OnData\<close>, lines 39-59\<close>

definition strangle_groupedContracts ::
  "(rat \<Rightarrow> rat \<Rightarrow> rat) \<Rightarrow> OptionChain \<Rightarrow> OptionContract list list" where
  "strangle_groupedContracts distance chain = map snd (groupby Expiry (contracts distance chain))"

definition callContracts :: "OptionContract list \<Rightarrow> OptionContract list" where
  "callContracts grp =
     sorted_py_reverse Strike (filter (\<lambda>contract. Right contract = Call) grp)"

definition putContracts :: "OptionContract list \<Rightarrow> OptionContract list" where
  "putContracts grp =
     sorted_py Strike (filter (\<lambda>contract. Right contract = Put) grp)"

text \<open>
  The \<^verbatim>\<open>for group in groupedContracts\<close> loop with its \<^verbatim>\<open>break\<close>: the pair of the first
  group that passes the test of line 51, or nothing.
\<close>

fun strangle_loop :: "OptionContract list list \<Rightarrow> (OptionContract \<times> OptionContract) option" where
  "strangle_loop [] = None"
| "strangle_loop (grp # groups) =
     (if length (callContracts grp) > 0 \<and> length (putContracts grp) > 0 \<and>
         Strike (callContracts grp ! 0) > Strike (putContracts grp ! 0)
      then Some (callContracts grp ! 0, putContracts grp ! 0)
      else strangle_loop groups)"

definition strangle_select ::
  "(rat \<Rightarrow> rat \<Rightarrow> rat) \<Rightarrow> OptionChain \<Rightarrow> (OptionContract \<times> OptionContract) option" where
  "strangle_select distance chain = strangle_loop (strangle_groupedContracts distance chain)"

section \<open>Verification of the position group (the \<^verbatim>\<open>else\<close> branch of \<^verbatim>\<open>OnData\<close>)\<close>

text \<open>
  Straddle lines 60-84, strangle lines 65-89: the same six checks in both files, each
  raising on failure. The expected quantities are the locals
  \<^verbatim>\<open>expectedCallPositionQuantity\<close> and \<^verbatim>\<open>expectedPutPositionQuantity\<close> (both 2 in the
  source).
\<close>

definition verify_position_group :: "int \<Rightarrow> int \<Rightarrow> PositionGroup \<Rightarrow> failure + unit" where
  "verify_position_group expectedCallPositionQuantity expectedPutPositionQuantity positionGroup =
     (if GroupBuyingPowerModel positionGroup \<noteq> OptionStrategyPositionGroupBuyingPowerModel
      then Inl (MISMATCHED_ACCOUNTING_MODEL (GroupBuyingPowerModel positionGroup))
      else if length (Positions positionGroup) \<noteq> 2
      then Inl (UNEXPECTED_LEG_COUNT (length (Positions positionGroup)))
      else
        (case next_or_None (\<lambda>position. SymbolOptionRight position = Call) (Positions positionGroup) of
           None \<Rightarrow> Inl (MISSING_LEG Call)
         | Some callPosition \<Rightarrow>
            (case next_or_None (\<lambda>position. SymbolOptionRight position = Put) (Positions positionGroup) of
               None \<Rightarrow> Inl (MISSING_LEG Put)
             | Some putPosition \<Rightarrow>
                 if Quantity callPosition \<noteq> expectedCallPositionQuantity
                 then Inl (QUANTITY_MISMATCH Call expectedCallPositionQuantity (Quantity callPosition))
                 else if Quantity putPosition \<noteq> expectedPutPositionQuantity
                 then Inl (QUANTITY_MISMATCH Put expectedPutPositionQuantity (Quantity putPosition))
                 else Inr ())))"

definition OnData_verify :: "PositionGroup \<Rightarrow> failure + unit" where
  "OnData_verify positionGroup = verify_position_group 2 2 positionGroup"

section \<open>\<^verbatim>\<open>OnEndOfAlgorithm\<close>\<close>

definition orders_count :: "AlgorithmState \<Rightarrow> nat" where
  "orders_count s = length (filter (\<lambda>status. status = Filled) (Orders s))"

definition OnEndOfAlgorithm :: "AlgorithmState \<Rightarrow> failure + unit" where
  "OnEndOfAlgorithm s =
     (if Invested s then Inl RESIDUAL_POSITION
      else if orders_count s \<noteq> 4 then Inl (ORDER_COUNT_MISMATCH (orders_count s))
      else Inr ())"

section \<open>What a verifier that collects every failure would report\<close>

text \<open>
  The reading of the six checks without short-circuit: each check of the source is
  evaluated on its own and every failing one is listed, in the order of the source. It is
  compared with \<open>verify_position_group\<close> below. \<open>reported\<close> lists the failures a result of
  the source carries: the exception raised, if any.
\<close>

definition reported :: "failure + unit \<Rightarrow> failure list" where
  "reported r = (case r of Inl e \<Rightarrow> [e] | Inr _ \<Rightarrow> [])"

definition failing_checks :: "int \<Rightarrow> int \<Rightarrow> PositionGroup \<Rightarrow> failure list" where
  "failing_checks expectedCall expectedPut positionGroup =
     (if GroupBuyingPowerModel positionGroup \<noteq> OptionStrategyPositionGroupBuyingPowerModel
      then [MISMATCHED_ACCOUNTING_MODEL (GroupBuyingPowerModel positionGroup)] else []) @
     (if length (Positions positionGroup) \<noteq> 2
      then [UNEXPECTED_LEG_COUNT (length (Positions positionGroup))] else []) @
     (case next_or_None (\<lambda>position. SymbolOptionRight position = Call) (Positions positionGroup) of
        None \<Rightarrow> [MISSING_LEG Call] | Some _ \<Rightarrow> []) @
     (case next_or_None (\<lambda>position. SymbolOptionRight position = Put) (Positions positionGroup) of
        None \<Rightarrow> [MISSING_LEG Put] | Some _ \<Rightarrow> []) @
     (case next_or_None (\<lambda>position. SymbolOptionRight position = Call) (Positions positionGroup) of
        None \<Rightarrow> []
      | Some callPosition \<Rightarrow>
          if Quantity callPosition \<noteq> expectedCall
          then [QUANTITY_MISMATCH Call expectedCall (Quantity callPosition)] else []) @
     (case next_or_None (\<lambda>position. SymbolOptionRight position = Put) (Positions positionGroup) of
        None \<Rightarrow> []
      | Some putPosition \<Rightarrow>
          if Quantity putPosition \<noteq> expectedPut
          then [QUANTITY_MISMATCH Put expectedPut (Quantity putPosition)] else [])"

section \<open>Chains without equidistant strikes\<close>

text \<open>
  Two contracts of the same expiry whose strikes differ but for which the computed distance
  from the price of the underlying is the same (one strike above and one below, or two
  strikes whose distances round to the same float) have the same sort keys. The chains
  that have no such contracts:
\<close>

definition no_equidistant_strikes ::
  "(rat \<Rightarrow> rat \<Rightarrow> rat) \<Rightarrow> OptionChain \<Rightarrow> bool" where
  "no_equidistant_strikes distance chain \<longleftrightarrow>
     (\<forall>x\<in>set (Contracts chain). \<forall>y\<in>set (Contracts chain).
        Expiry x = Expiry y \<and>
        distance (UnderlyingPrice chain) (Strike x) = distance (UnderlyingPrice chain) (Strike y) \<longrightarrow>
        Strike x = Strike y)"

section \<open>Sorting and grouping\<close>

subsection \<open>Stable sorting\<close>

lemma set_sorted_py [simp]: "set (sorted_py key xs) = set xs"
  by (simp add: sorted_py_def)

lemma set_sorted_py_reverse [simp]: "set (sorted_py_reverse key xs) = set xs"
  by (simp add: sorted_py_reverse_def)

lemma mset_sorted_py [simp]: "mset (sorted_py key xs) = mset xs"
  by (simp add: sorted_py_def)

lemma mset_sorted_py_reverse [simp]: "mset (sorted_py_reverse key xs) = mset xs"
  by (simp add: sorted_py_reverse_def)

lemma insort_key_lex:
  assumes "sorted_wrt (\<lambda>a b. g a < g b \<or> (g a = g b \<and> Q a b)) us"
    and "\<forall>u\<in>set us. Q w u"
  shows "sorted_wrt (\<lambda>a b. g a < g b \<or> (g a = g b \<and> Q a b)) (insort_key g w us)"
  using assms by (induction us) (auto simp: set_insort_key)

lemma sort_key_lex:
  "sorted_wrt Q ws \<Longrightarrow>
   sorted_wrt (\<lambda>a b. g a < g b \<or> (g a = g b \<and> Q a b)) (sort_key g ws)"
  by (induction ws) (auto intro: insort_key_lex)

lemma sorted_py_sorted: "sorted_wrt (\<lambda>a b. key a \<le> key b) (sorted_py key xs)"
  using sorted_sort_key [of key xs] by (simp add: sorted_py_def sorted_map)

lemma sorted_py_reverse_lex:
  assumes "sorted_wrt (\<lambda>a b. Q a b) xs"
  shows "sorted_wrt (\<lambda>a b. key b < key a \<or> (key a = key b \<and> Q a b))
           (sorted_py_reverse key xs)"
proof -
  have "sorted_wrt (\<lambda>a b. Q b a) (rev xs)"
    using assms by (simp add: sorted_wrt_rev)
  then have "sorted_wrt (\<lambda>a b. key a < key b \<or> (key a = key b \<and> Q b a))
               (sort_key key (rev xs))"
    by (rule sort_key_lex)
  then show ?thesis
    by (simp add: sorted_py_reverse_def sorted_wrt_rev eq_commute)
qed

lemma sorted_py_reverse_sorted:
  "sorted_wrt (\<lambda>a b. key b \<le> key a) (sorted_py_reverse key xs)"
proof -
  have "sorted_wrt (\<lambda>a b. key b < key a \<or> (key a = key b \<and> True)) (sorted_py_reverse key xs)"
    by (rule sorted_py_reverse_lex) simp
  then show ?thesis
    by (rule sorted_wrt_mono_rel [rotated]) auto
qed

lemma contracts_lex:
  "sorted_wrt (\<lambda>a b. Expiry b < Expiry a \<or>
       (Expiry a = Expiry b \<and>
        d (UnderlyingPrice chain) (Strike a) \<le> d (UnderlyingPrice chain) (Strike b)))
     (contracts d chain)"
  unfolding contracts_def
  by (rule sorted_py_reverse_lex) (rule sorted_py_sorted)

lemma set_contracts [simp]: "set (contracts d chain) = set (Contracts chain)"
  by (simp add: contracts_def)

lemma mset_contracts [simp]: "mset (contracts d chain) = mset (Contracts chain)"
  by (simp add: contracts_def)

subsection \<open>Grouping consecutive elements\<close>


lemma groupby_group:
  "(e, g) \<in> set (groupby key xs) \<Longrightarrow> g \<noteq> [] \<and> (\<forall>x\<in>set g. key x = e) \<and> set g \<subseteq> set xs"
proof (induction key xs rule: groupby.induct)
  case (1 key)
  then show ?case by simp
next
  case (2 key x xs)
  let ?P = "\<lambda>y. key y = key x"
  from "2.prems" consider
    (first) "e = key x" "g = x # takeWhile ?P xs"
    | (rest) "(e, g) \<in> set (groupby key (dropWhile ?P xs))"
    by auto
  then show ?case
  proof cases
    case first
    have tw: "key y = key x \<and> y \<in> set xs" if "y \<in> set (takeWhile ?P xs)" for y
      using set_takeWhileD [OF that] by simp
    have "\<forall>y\<in>set (x # takeWhile ?P xs). key y = key x"
      by (metis tw set_ConsD)
    moreover have "set (x # takeWhile ?P xs) \<subseteq> set (x # xs)"
      by (metis tw set_ConsD list.set_intros subsetI)
    ultimately have "x # takeWhile ?P xs \<noteq> [] \<and>
        (\<forall>y\<in>set (x # takeWhile ?P xs). key y = key x) \<and>
        set (x # takeWhile ?P xs) \<subseteq> set (x # xs)"
      by blast
    then show ?thesis unfolding first .
  next
    case rest
    then have "g \<noteq> [] \<and> (\<forall>x\<in>set g. key x = e) \<and> set g \<subseteq> set (dropWhile ?P xs)"
      by (rule "2.IH")
    moreover have "y \<in> set xs" if "y \<in> set (dropWhile ?P xs)" for y
      using set_dropWhileD [OF that] .
    ultimately show ?thesis
      by (metis list.set_intros(2) subsetD subsetI)
  qed
qed

lemma groupby_keys: "fst ` set (groupby key xs) = key ` set xs"
proof (induction key xs rule: groupby.induct)
  case (1 key)
  then show ?case by simp
next
  case (2 key x xs)
  let ?P = "\<lambda>y. key y = key x"
  have "set xs = set (takeWhile ?P xs) \<union> set (dropWhile ?P xs)"
    by (metis set_append takeWhile_dropWhile_id)
  then have "key ` set xs = key ` set (takeWhile ?P xs) \<union> key ` set (dropWhile ?P xs)"
    by (simp add: image_Un)
  moreover have "key y = key x" if "y \<in> set (takeWhile ?P xs)" for y
    using set_takeWhileD [OF that] by simp
  then have "key ` set (takeWhile ?P xs) \<subseteq> {key x}"
    by blast
  moreover have "fst ` set (groupby key (x # xs)) =
      insert (key x) (key ` set (dropWhile ?P xs))"
    using 2 by simp
  ultimately show ?case by (simp only: list.set image_insert) blast
qed

lemma dropWhile_sorted_less:
  fixes f :: "'a \<Rightarrow> 'o::linorder"
  assumes "sorted (map f (x # xs))" and "y \<in> set (dropWhile (\<lambda>y. f y = f x) xs)"
  shows "f x < f y"
proof -
  from assms(2) have ne: "dropWhile (\<lambda>y. f y = f x) xs \<noteq> []"
    by (auto simp del: dropWhile_eq_Nil_conv)
  define z where "z = hd (dropWhile (\<lambda>y. f y = f x) xs)"
  define zs where "zs = tl (dropWhile (\<lambda>y. f y = f x) xs)"
  have dw: "dropWhile (\<lambda>y. f y = f x) xs = z # zs"
    using ne by (simp add: z_def zs_def)
  have nz: "f z \<noteq> f x"
    using hd_dropWhile [OF ne] by (simp add: z_def)
  have xs: "xs = takeWhile (\<lambda>y. f y = f x) xs @ z # zs"
    using dw by (metis takeWhile_dropWhile_id)
  have "sorted (map f (x # takeWhile (\<lambda>y. f y = f x) xs @ z # zs))"
    using assms(1) xs by simp
  then have "f x \<le> f z" and "\<forall>v\<in>set zs. f z \<le> f v"
    by (simp_all add: sorted_append)
  moreover have "y = z \<or> y \<in> set zs" using assms(2) dw by simp
  ultimately show ?thesis using nz by auto
qed


lemma groupby_sorted:
  fixes h :: "'k \<Rightarrow> 'o::linorder"
  assumes "sorted (map (\<lambda>x. h (key x)) xs)" and "inj_on h (key ` set xs)"
  shows "sorted_wrt (<) (map (\<lambda>p. h (fst p)) (groupby key xs)) \<and>
         (\<forall>p\<in>set (groupby key xs). snd p = filter (\<lambda>x. key x = fst p) xs)"
  using assms
proof (induction key xs rule: groupby.induct)
  case (1 key)
  then show ?case by simp
next
  case (2 key x xs)
  let ?P = "\<lambda>y. key y = key x"
  let ?T = "takeWhile ?P xs"
  let ?D = "dropWhile ?P xs"
  have split: "xs = ?T @ ?D" by simp
  have setD: "set ?D \<subseteq> set xs"
    by (metis set_dropWhileD subsetI)
  have sorted_xs: "sorted (map (\<lambda>x. h (key x)) xs)"
    using "2.prems"(1) by simp
  have "sorted (map (\<lambda>x. h (key x)) (?T @ ?D))"
    using sorted_xs by simp
  then have sorted_D: "sorted (map (\<lambda>x. h (key x)) ?D)"
    unfolding map_append sorted_append by blast
  have "key ` set ?D \<subseteq> key ` set (x # xs)"
    using setD by auto
  then have inj_D: "inj_on h (key ` set ?D)"
    using "2.prems"(2) inj_on_subset by blast
  have same: "(h (key y) = h (key x)) = (key y = key x)" if "y \<in> set xs" for y
  proof -
    have a: "key y \<in> key ` set (x # xs)" using that by simp
    have b: "key x \<in> key ` set (x # xs)" by simp
    show ?thesis using inj_on_eq_iff [OF "2.prems"(2) a b] .
  qed
  have "dropWhile (\<lambda>y. h (key y) = h (key x)) xs = ?D"
    by (rule dropWhile_cong) (simp_all add: same)
  then have less: "h (key x) < h (key y)" if "y \<in> set ?D" for y
    using dropWhile_sorted_less [of "\<lambda>x. h (key x)" x xs y] "2.prems"(1) that by simp
  have neq: "key y \<noteq> key x" if "y \<in> set ?D" for y
    using less [OF that] by auto
  have IH: "sorted_wrt (<) (map (\<lambda>p. h (fst p)) (groupby key ?D)) \<and>
         (\<forall>p\<in>set (groupby key ?D). snd p = filter (\<lambda>x. key x = fst p) ?D)"
    using "2.IH" sorted_D inj_D by blast
  have keysD: "fst ` set (groupby key ?D) = key ` set ?D"
    by (rule groupby_keys)
  have fst_less: "h (key x) < h (fst p)" if "p \<in> set (groupby key ?D)" for p
  proof -
    from that keysD obtain y where "y \<in> set ?D" "fst p = key y" by blast
    then show ?thesis using less by metis
  qed
  have T_all: "filter ?P ?T = ?T"
    by (rule filter_True) (metis set_takeWhileD)
  have D_none: "filter ?P ?D = []"
    by (rule filter_False) (metis neq)
  have first: "x # ?T = filter ?P (x # xs)"
  proof -
    have "filter ?P xs = filter ?P ?T @ filter ?P ?D"
      by (metis filter_append takeWhile_dropWhile_id)
    then show ?thesis by (simp add: T_all D_none)
  qed
  have rest: "snd p = filter (\<lambda>y. key y = fst p) (x # xs)" if "p \<in> set (groupby key ?D)" for p
  proof -
    from that keysD obtain y where y: "y \<in> set ?D" "fst p = key y" by blast
    then have ne: "fst p \<noteq> key x" using neq by metis
    have "filter (\<lambda>y. key y = fst p) ?T = []"
      by (rule filter_False) (metis ne set_takeWhileD)
    moreover have "filter (\<lambda>y. key y = fst p) xs =
        filter (\<lambda>y. key y = fst p) ?T @ filter (\<lambda>y. key y = fst p) ?D"
      by (metis filter_append takeWhile_dropWhile_id)
    ultimately have "filter (\<lambda>y. key y = fst p) (x # xs) = filter (\<lambda>y. key y = fst p) ?D"
      using ne by simp
    then show ?thesis using IH that by simp
  qed
  have "sorted_wrt (<) (map (\<lambda>p. h (fst p)) (groupby key (x # xs)))"
    using IH fst_less by simp
  moreover have "\<forall>p\<in>set (groupby key (x # xs)). snd p = filter (\<lambda>y. key y = fst p) (x # xs)"
    using first rest by (simp del: filter.simps)
  ultimately show ?case by blast
qed

lemma groupby_eq_map:
  assumes "\<forall>p\<in>set gs. snd p = F (fst p)"
  shows "gs = map (\<lambda>e. (e, F e)) (map fst gs)"
  using assms by (induction gs) (simp_all add: prod_eq_iff)

lemma groupby_keys_unique:
  fixes h :: "'k \<Rightarrow> 'o::linorder"
  assumes "sorted (map (\<lambda>x. h (key x)) xs)" and "sorted (map (\<lambda>x. h (key x)) ys)"
    and "inj_on h (key ` set xs)" and "set xs = set ys"
  shows "map fst (groupby key xs) = map fst (groupby key ys)"
proof -
  let ?K1 = "map fst (groupby key xs)" and ?K2 = "map fst (groupby key ys)"
  have s1: "sorted_wrt (<) (map h ?K1)"
    using groupby_sorted [where h = h and key = key and xs = xs] assms(1,3)
    by (simp add: comp_def)
  have s2: "sorted_wrt (<) (map h ?K2)"
    using groupby_sorted [where h = h and key = key and xs = ys] assms(2,3,4)
    by (simp add: comp_def)
  have k1: "set ?K1 = key ` set xs" using groupby_keys [of key xs] by simp
  have k2: "set ?K2 = key ` set xs" using groupby_keys [of key ys] assms(4) by simp
  have "map h ?K1 = map h ?K2"
  proof (rule sorted_distinct_set_unique)
    show "sorted (map h ?K1)" "distinct (map h ?K1)"
      using s1 strict_sorted_iff by blast+
    show "sorted (map h ?K2)" "distinct (map h ?K2)"
      using s2 strict_sorted_iff by blast+
    show "set (map h ?K1) = set (map h ?K2)"
      using k1 k2 by (simp only: set_map)
  qed
  moreover have "inj_on h (set ?K1 \<union> set ?K2)"
    using assms(3) k1 k2 by simp
  ultimately show ?thesis
    using inj_on_map_eq_map by blast
qed

lemma contracts_sorted_Expiry: "sorted (map (\<lambda>x. - Expiry x) (contracts d chain))"
proof -
  have "sorted_wrt (\<lambda>a b. - Expiry a \<le> - Expiry b) (contracts d chain)"
    by (rule sorted_wrt_mono_rel [OF _ contracts_lex]) auto
  then show ?thesis by (simp add: sorted_map)
qed

lemma strangle_groups:
  "sorted_wrt (<) (map (\<lambda>p. - fst p) (groupby Expiry (contracts d chain))) \<and>
   (\<forall>p\<in>set (groupby Expiry (contracts d chain)).
       snd p = filter (\<lambda>x. Expiry x = fst p) (contracts d chain))"
  using groupby_sorted [where h = uminus and key = Expiry and xs = "contracts d chain"]
    contracts_sorted_Expiry [of d chain]
  by simp

section \<open>The strangle policy\<close>

lemma strangle_loop_Some:
  "strangle_loop gs = Some (c, p) \<Longrightarrow>
   \<exists>g\<in>set gs. callContracts g \<noteq> [] \<and> putContracts g \<noteq> [] \<and>
      c = callContracts g ! 0 \<and> p = putContracts g ! 0 \<and> Strike c > Strike p"
  by (induction gs) (auto split: if_splits)

lemma callContracts_set: "set (callContracts g) = {x \<in> set g. Right x = Call}"
  by (simp add: callContracts_def)

lemma putContracts_set: "set (putContracts g) = {x \<in> set g. Right x = Put}"
  by (simp add: putContracts_def)

lemma group_hd:
  assumes "(e, g) \<in> set (groupby key xs)" shows "key (hd g) = e"
  using groupby_group [OF assms] by (cases g) auto

text \<open>
  C6. A pair returned by the strangle policy is a call and a put of the chain, the strike
  of the call is strictly above the strike of the put, and both have the same expiry.
\<close>

theorem strangle_select_shape:
  "strangle_select d chain = Some (c, p) \<Longrightarrow>
   Right c = Call \<and> Right p = Put \<and> Strike c > Strike p \<and> Expiry c = Expiry p \<and>
   c \<in> set (Contracts chain) \<and> p \<in> set (Contracts chain)"
proof -
  assume "strangle_select d chain = Some (c, p)"
  then obtain g where g: "g \<in> set (strangle_groupedContracts d chain)"
    and ne: "callContracts g \<noteq> []" "putContracts g \<noteq> []"
    and c: "c = callContracts g ! 0" and p: "p = putContracts g ! 0"
    and gt: "Strike c > Strike p"
    unfolding strangle_select_def using strangle_loop_Some by blast
  from g obtain e where "(e, g) \<in> set (groupby Expiry (contracts d chain))"
    by (auto simp: strangle_groupedContracts_def)
  then have grp: "\<forall>x\<in>set g. Expiry x = e" and sub: "set g \<subseteq> set (Contracts chain)"
    using groupby_group [of e g Expiry "contracts d chain"] by simp_all
  have "c \<in> set (callContracts g)" using ne(1) c by (simp add: nth_mem)
  then have c_in: "c \<in> set g" and c_right: "Right c = Call"
    by (simp_all add: callContracts_set)
  have "p \<in> set (putContracts g)" using ne(2) p by (simp add: nth_mem)
  then have p_in: "p \<in> set g" and p_right: "Right p = Put"
    by (simp_all add: putContracts_set)
  have "Expiry c = e" "Expiry p = e" using grp c_in p_in by blast+
  then show ?thesis using c_right p_right gt c_in p_in sub by auto
qed

theorem strangle_select_shape_witness:
  "strangle_select exact_distance
     \<lparr>UnderlyingPrice = 100, Contracts =
      [\<lparr>Right = Call, Strike = 101, Expiry = 30\<rparr>, \<lparr>Right = Put, Strike = 99, Expiry = 30\<rparr>,
       \<lparr>Right = Call, Strike = 120, Expiry = 60\<rparr>, \<lparr>Right = Put, Strike = 80, Expiry = 60\<rparr>]\<rparr>
   = Some (\<lparr>Right = Call, Strike = 120, Expiry = 60\<rparr>, \<lparr>Right = Put, Strike = 80, Expiry = 60\<rparr>) \<and>
   Strike \<lparr>Right = Call, Strike = 120, Expiry = 60\<rparr> > Strike \<lparr>Right = Put, Strike = 80, Expiry = 60\<rparr>"
proof -
  have sel: "strangle_select exact_distance
     \<lparr>UnderlyingPrice = 100, Contracts =
      [\<lparr>Right = Call, Strike = 101, Expiry = 30\<rparr>, \<lparr>Right = Put, Strike = 99, Expiry = 30\<rparr>,
       \<lparr>Right = Call, Strike = 120, Expiry = 60\<rparr>, \<lparr>Right = Put, Strike = 80, Expiry = 60\<rparr>]\<rparr>
   = Some (\<lparr>Right = Call, Strike = 120, Expiry = 60\<rparr>, \<lparr>Right = Put, Strike = 80, Expiry = 60\<rparr>)"
    by code_simp
  show ?thesis using sel strangle_select_shape [OF sel] by simp
qed

text \<open>
  C10. The sorted sequence is descending in the expiry, so grouping it by expiry gives one
  group for each expiry of the chain: every group is non-empty and holds exactly the
  contracts of the chain with the expiry of its first element, the expiries of the groups
  are strictly descending (hence pairwise different), and every expiry of the chain has
  its group.
\<close>

theorem strangle_groups_partition:
  "(\<forall>g\<in>set (strangle_groupedContracts d chain).
      g \<noteq> [] \<and>
      mset g = filter_mset (\<lambda>c. Expiry c = Expiry (hd g)) (mset (Contracts chain))) \<and>
   sorted_wrt (\<lambda>g g'. Expiry (hd g') < Expiry (hd g)) (strangle_groupedContracts d chain) \<and>
   distinct (map (\<lambda>g. Expiry (hd g)) (strangle_groupedContracts d chain)) \<and>
   (\<lambda>g. Expiry (hd g)) ` set (strangle_groupedContracts d chain) = Expiry ` set (Contracts chain)"
proof -
  let ?gs = "groupby Expiry (contracts d chain)"
  have hd_eq: "Expiry (hd (snd p)) = fst p" if "p \<in> set ?gs" for p
    using group_hd [of "fst p" "snd p" Expiry "contracts d chain"] that by simp
  have ne: "snd p \<noteq> []" if "p \<in> set ?gs" for p
    using groupby_group [of "fst p" "snd p" Expiry "contracts d chain"] that by simp
  have fil: "snd p = filter (\<lambda>x. Expiry x = fst p) (contracts d chain)" if "p \<in> set ?gs" for p
    using strangle_groups [of d chain] that by blast
  have keys: "map (\<lambda>g. Expiry (hd g)) (strangle_groupedContracts d chain) = map fst ?gs"
    unfolding strangle_groupedContracts_def using hd_eq by simp
  have strict: "sorted_wrt (<) (map uminus (map fst ?gs))"
    using strangle_groups [of d chain] by (simp add: comp_def)
  have 1: "\<forall>g\<in>set (strangle_groupedContracts d chain).
      g \<noteq> [] \<and>
      mset g = filter_mset (\<lambda>c. Expiry c = Expiry (hd g)) (mset (Contracts chain))"
  proof
    fix g assume "g \<in> set (strangle_groupedContracts d chain)"
    then obtain p where p: "p \<in> set ?gs" "g = snd p"
      by (auto simp: strangle_groupedContracts_def)
    have "mset g = filter_mset (\<lambda>c. Expiry c = fst p) (mset (contracts d chain))"
      using fil [OF p(1)] p(2) by (metis mset_filter)
    then show "g \<noteq> [] \<and>
      mset g = filter_mset (\<lambda>c. Expiry c = Expiry (hd g)) (mset (Contracts chain))"
      using ne [OF p(1)] hd_eq [OF p(1)] p(2) by simp
  qed
  have 2: "sorted_wrt (\<lambda>g g'. Expiry (hd g') < Expiry (hd g)) (strangle_groupedContracts d chain)"
  proof -
    have "sorted_wrt (<) (map uminus (map (\<lambda>g. Expiry (hd g)) (strangle_groupedContracts d chain)))"
      using strict keys by simp
    then show ?thesis by (simp add: sorted_wrt_map)
  qed
  have 3: "distinct (map (\<lambda>g. Expiry (hd g)) (strangle_groupedContracts d chain))"
  proof -
    have "distinct (map uminus (map fst ?gs))"
      using strict strict_sorted_iff by blast
    then have "distinct (map fst ?gs)"
      using distinct_map [of uminus "map fst ?gs"] by blast
    then show ?thesis using keys by simp
  qed
  have 4: "(\<lambda>g. Expiry (hd g)) ` set (strangle_groupedContracts d chain) = Expiry ` set (Contracts chain)"
  proof -
    have "set (map (\<lambda>g. Expiry (hd g)) (strangle_groupedContracts d chain)) = set (map fst ?gs)"
      using keys by simp
    then show ?thesis using groupby_keys [of Expiry "contracts d chain"] by simp
  qed
  from 1 2 3 4 show ?thesis by blast
qed

theorem strangle_groups_partition_witness:
  "strangle_groupedContracts exact_distance
     \<lparr>UnderlyingPrice = 100, Contracts =
      [\<lparr>Right = Call, Strike = 101, Expiry = 30\<rparr>, \<lparr>Right = Put, Strike = 99, Expiry = 30\<rparr>,
       \<lparr>Right = Call, Strike = 120, Expiry = 60\<rparr>, \<lparr>Right = Put, Strike = 80, Expiry = 60\<rparr>]\<rparr>
   = [[\<lparr>Right = Call, Strike = 120, Expiry = 60\<rparr>, \<lparr>Right = Put, Strike = 80, Expiry = 60\<rparr>],
      [\<lparr>Right = Call, Strike = 101, Expiry = 30\<rparr>, \<lparr>Right = Put, Strike = 99, Expiry = 30\<rparr>]] \<and>
   distinct (map (\<lambda>g. Expiry (hd g)) (strangle_groupedContracts exact_distance
     \<lparr>UnderlyingPrice = 100, Contracts =
      [\<lparr>Right = Call, Strike = 101, Expiry = 30\<rparr>, \<lparr>Right = Put, Strike = 99, Expiry = 30\<rparr>,
       \<lparr>Right = Call, Strike = 120, Expiry = 60\<rparr>, \<lparr>Right = Put, Strike = 80, Expiry = 60\<rparr>]\<rparr>))"
proof -
  have "strangle_groupedContracts exact_distance
     \<lparr>UnderlyingPrice = 100, Contracts =
      [\<lparr>Right = Call, Strike = 101, Expiry = 30\<rparr>, \<lparr>Right = Put, Strike = 99, Expiry = 30\<rparr>,
       \<lparr>Right = Call, Strike = 120, Expiry = 60\<rparr>, \<lparr>Right = Put, Strike = 80, Expiry = 60\<rparr>]\<rparr>
   = [[\<lparr>Right = Call, Strike = 120, Expiry = 60\<rparr>, \<lparr>Right = Put, Strike = 80, Expiry = 60\<rparr>],
      [\<lparr>Right = Call, Strike = 101, Expiry = 30\<rparr>, \<lparr>Right = Put, Strike = 99, Expiry = 30\<rparr>]]"
    by code_simp
  then show ?thesis
    using strangle_groups_partition
      [of exact_distance "\<lparr>UnderlyingPrice = 100, Contracts =
      [\<lparr>Right = Call, Strike = 101, Expiry = 30\<rparr>, \<lparr>Right = Put, Strike = 99, Expiry = 30\<rparr>,
       \<lparr>Right = Call, Strike = 120, Expiry = 60\<rparr>, \<lparr>Right = Put, Strike = 80, Expiry = 60\<rparr>]\<rparr>"]
    by blast
qed

subsection \<open>The strangle policy depends on the set of contracts only\<close>

lemma sorted_py_head:
  assumes "cs \<noteq> []"
  shows "sorted_py key cs ! 0 \<in> set cs \<and> (\<forall>c\<in>set cs. key (sorted_py key cs ! 0) \<le> key c)"
proof -
  have ne: "sorted_py key cs \<noteq> []"
    using assms by (metis set_sorted_py set_empty)
  then obtain m ms where ms: "sorted_py key cs = m # ms" by (cases "sorted_py key cs") auto
  have "sorted_wrt (\<lambda>a b. key a \<le> key b) (m # ms)"
    using sorted_py_sorted [of key cs] ms by simp
  then have "\<forall>c\<in>set (m # ms). key m \<le> key c" by auto
  moreover have "set (m # ms) = set cs" using ms by (metis set_sorted_py)
  ultimately show ?thesis using ms by auto
qed

lemma sorted_py_reverse_head:
  assumes "cs \<noteq> []"
  shows "sorted_py_reverse key cs ! 0 \<in> set cs \<and>
         (\<forall>c\<in>set cs. key c \<le> key (sorted_py_reverse key cs ! 0))"
proof -
  have ne: "sorted_py_reverse key cs \<noteq> []"
    using assms by (metis set_sorted_py_reverse set_empty)
  then obtain m ms where ms: "sorted_py_reverse key cs = m # ms"
    by (cases "sorted_py_reverse key cs") auto
  have "sorted_wrt (\<lambda>a b. key b \<le> key a) (m # ms)"
    using sorted_py_reverse_sorted [of key cs] ms by simp
  then have "\<forall>c\<in>set (m # ms). key c \<le> key m" by auto
  moreover have "set (m # ms) = set cs" using ms by (metis set_sorted_py_reverse)
  ultimately show ?thesis using ms by auto
qed

lemma callContracts_empty: "callContracts g = [] \<longleftrightarrow> {x \<in> set g. Right x = Call} = {}"
  using callContracts_set [of g] by (metis set_empty)

lemma putContracts_empty: "putContracts g = [] \<longleftrightarrow> {x \<in> set g. Right x = Put} = {}"
  using putContracts_set [of g] by (metis set_empty)

lemma callContracts_head:
  assumes "callContracts g \<noteq> []"
  shows "callContracts g ! 0 \<in> {x \<in> set g. Right x = Call} \<and>
         (\<forall>c\<in>{x \<in> set g. Right x = Call}. Strike c \<le> Strike (callContracts g ! 0))"
proof -
  let ?cs = "filter (\<lambda>contract. Right contract = Call) g"
  have "?cs \<noteq> []" using assms by (auto simp: callContracts_def sorted_py_reverse_def)
  from sorted_py_reverse_head [OF this, of Strike]
  show ?thesis by (simp add: callContracts_def)
qed

lemma putContracts_head:
  assumes "putContracts g \<noteq> []"
  shows "putContracts g ! 0 \<in> {x \<in> set g. Right x = Put} \<and>
         (\<forall>c\<in>{x \<in> set g. Right x = Put}. Strike (putContracts g ! 0) \<le> Strike c)"
proof -
  let ?cs = "filter (\<lambda>contract. Right contract = Put) g"
  have "?cs \<noteq> []" using assms by (auto simp: putContracts_def sorted_py_def)
  from sorted_py_head [OF this, of Strike]
  show ?thesis by (simp add: putContracts_def)
qed

lemma callContracts_head_cong:
  assumes "set g = set g'" and "\<forall>x\<in>set g. Expiry x = e" and "callContracts g \<noteq> []"
  shows "callContracts g ! 0 = callContracts g' ! 0"
proof -
  have ne': "callContracts g' \<noteq> []"
    using assms(1,3) by (simp add: callContracts_empty)
  let ?m = "callContracts g ! 0" and ?m' = "callContracts g' ! 0"
  have m: "?m \<in> set g" "Right ?m = Call" "\<forall>c\<in>{x \<in> set g. Right x = Call}. Strike c \<le> Strike ?m"
    using callContracts_head [OF assms(3)] by auto
  have m': "?m' \<in> set g" "Right ?m' = Call" "\<forall>c\<in>{x \<in> set g. Right x = Call}. Strike c \<le> Strike ?m'"
    using callContracts_head [OF ne'] assms(1) by auto
  have "Strike ?m \<le> Strike ?m'" using m(1,2) m'(3) by blast
  moreover have "Strike ?m' \<le> Strike ?m" using m'(1,2) m(3) by blast
  ultimately have "Strike ?m = Strike ?m'" by simp
  moreover have "Expiry ?m = Expiry ?m'" using assms(2) m(1) m'(1) by metis
  moreover have "Right ?m = Right ?m'" using m(2) m'(2) by simp
  ultimately show ?thesis by (simp add: OptionContract.equality)
qed

lemma putContracts_head_cong:
  assumes "set g = set g'" and "\<forall>x\<in>set g. Expiry x = e" and "putContracts g \<noteq> []"
  shows "putContracts g ! 0 = putContracts g' ! 0"
proof -
  have ne': "putContracts g' \<noteq> []"
    using assms(1,3) by (simp add: putContracts_empty)
  let ?m = "putContracts g ! 0" and ?m' = "putContracts g' ! 0"
  have m: "?m \<in> set g" "Right ?m = Put" "\<forall>c\<in>{x \<in> set g. Right x = Put}. Strike ?m \<le> Strike c"
    using putContracts_head [OF assms(3)] by auto
  have m': "?m' \<in> set g" "Right ?m' = Put" "\<forall>c\<in>{x \<in> set g. Right x = Put}. Strike ?m' \<le> Strike c"
    using putContracts_head [OF ne'] assms(1) by auto
  have "Strike ?m \<le> Strike ?m'" using m'(1,2) m(3) by blast
  moreover have "Strike ?m' \<le> Strike ?m" using m(1,2) m'(3) by blast
  ultimately have "Strike ?m = Strike ?m'" by simp
  moreover have "Expiry ?m = Expiry ?m'" using assms(2) m(1) m'(1) by metis
  moreover have "Right ?m = Right ?m'" using m(2) m'(2) by simp
  ultimately show ?thesis by (simp add: OptionContract.equality)
qed

lemma strangle_loop_cong:
  assumes "list_all2 (\<lambda>g g'. set g = set g' \<and> (\<exists>e. \<forall>x\<in>set g. Expiry x = e)) gs gs'"
  shows "strangle_loop gs = strangle_loop gs'"
  using assms
proof (induction rule: list_all2_induct)
  case Nil
  then show ?case by simp
next
  case (Cons g gs g' gs')
  from Cons.hyps(1) obtain e where s: "set g = set g'" and e: "\<forall>x\<in>set g. Expiry x = e"
    by blast
  have c_ne: "callContracts g = [] \<longleftrightarrow> callContracts g' = []"
    using s by (simp add: callContracts_empty)
  have p_ne: "putContracts g = [] \<longleftrightarrow> putContracts g' = []"
    using s by (simp add: putContracts_empty)
  show ?case
  proof (cases "callContracts g \<noteq> [] \<and> putContracts g \<noteq> []")
    case True
    then have "callContracts g ! 0 = callContracts g' ! 0"
      and "putContracts g ! 0 = putContracts g' ! 0"
      using callContracts_head_cong [OF s e] putContracts_head_cong [OF s e] by blast+
    then show ?thesis using True c_ne p_ne Cons.IH by simp
  next
    case False
    then show ?thesis using c_ne p_ne Cons.IH by auto
  qed
qed

lemma strangle_select_set_cong:
  assumes "set (Contracts chain) = set (Contracts chain')"
  shows "strangle_select d chain = strangle_select d' chain'"
proof -
  let ?gs = "groupby Expiry (contracts d chain)" and ?gs' = "groupby Expiry (contracts d' chain')"
  let ?F = "\<lambda>e. filter (\<lambda>x. Expiry x = e) (contracts d chain)"
  let ?F' = "\<lambda>e. filter (\<lambda>x. Expiry x = e) (contracts d' chain')"
  have keys: "map fst ?gs = map fst ?gs'"
    using groupby_keys_unique [where h = uminus and key = Expiry
        and xs = "contracts d chain" and ys = "contracts d' chain'"]
      contracts_sorted_Expiry [of d chain] contracts_sorted_Expiry [of d' chain'] assms
    by simp
  have "?gs = map (\<lambda>e. (e, ?F e)) (map fst ?gs)"
    by (rule groupby_eq_map) (use strangle_groups [of d chain] in blast)
  then have g: "strangle_groupedContracts d chain = map ?F (map fst ?gs)"
    unfolding strangle_groupedContracts_def by (metis (no_types, lifting) map_map comp_def snd_conv map_eq_conv)
  have "?gs' = map (\<lambda>e. (e, ?F' e)) (map fst ?gs')"
    by (rule groupby_eq_map) (use strangle_groups [of d' chain'] in blast)
  then have g': "strangle_groupedContracts d' chain' = map ?F' (map fst ?gs)"
    unfolding strangle_groupedContracts_def keys by (metis (no_types, lifting) map_map comp_def snd_conv map_eq_conv)
  have "list_all2 (\<lambda>g g'. set g = set g' \<and> (\<exists>e. \<forall>x\<in>set g. Expiry x = e))
          (map ?F (map fst ?gs)) (map ?F' (map fst ?gs))"
    unfolding list_all2_map1 list_all2_map2
    by (rule list_all2_refl) (use assms in auto)
  then show ?thesis
    unfolding strangle_select_def g g' by (rule strangle_loop_cong)
qed

text \<open>
  C2, as amended. For a chain with a single expiry whose contracts are the calls at 105 and
  110 and the puts at 90 and 95, in any order of enumeration and whatever the computed
  distances, the strangle policy returns the call at 110 and the put at 90: the highest
  call strike and the lowest put strike.
\<close>

theorem strangle_select_example:
  assumes "UnderlyingPrice chain = 100"
    and "set (Contracts chain) =
      {\<lparr>Right = Call, Strike = 105, Expiry = e\<rparr>, \<lparr>Right = Call, Strike = 110, Expiry = e\<rparr>,
       \<lparr>Right = Put, Strike = 90, Expiry = e\<rparr>, \<lparr>Right = Put, Strike = 95, Expiry = e\<rparr>}"
  shows "strangle_select d chain =
      Some (\<lparr>Right = Call, Strike = 110, Expiry = e\<rparr>, \<lparr>Right = Put, Strike = 90, Expiry = e\<rparr>)"
proof -
  have "strangle_select d chain = strangle_select exact_distance
     \<lparr>UnderlyingPrice = 100, Contracts =
      [\<lparr>Right = Call, Strike = 105, Expiry = e\<rparr>, \<lparr>Right = Call, Strike = 110, Expiry = e\<rparr>,
       \<lparr>Right = Put, Strike = 90, Expiry = e\<rparr>, \<lparr>Right = Put, Strike = 95, Expiry = e\<rparr>]\<rparr>"
    by (rule strangle_select_set_cong) (simp add: assms(2))
  also have "\<dots> = Some (\<lparr>Right = Call, Strike = 110, Expiry = e\<rparr>, \<lparr>Right = Put, Strike = 90, Expiry = e\<rparr>)"
    by (simp add: strangle_select_def strangle_groupedContracts_def contracts_def exact_distance_def sorted_py_def
        sorted_py_reverse_def callContracts_def putContracts_def)
  finally show ?thesis .
qed

theorem strangle_select_example_witness:
  "strangle_select exact_distance
     \<lparr>UnderlyingPrice = 100, Contracts =
      [\<lparr>Right = Put, Strike = 95, Expiry = 30\<rparr>, \<lparr>Right = Call, Strike = 110, Expiry = 30\<rparr>,
       \<lparr>Right = Put, Strike = 90, Expiry = 30\<rparr>, \<lparr>Right = Call, Strike = 105, Expiry = 30\<rparr>]\<rparr>
   = Some (\<lparr>Right = Call, Strike = 110, Expiry = 30\<rparr>, \<lparr>Right = Put, Strike = 90, Expiry = 30\<rparr>)"
  by (rule strangle_select_example) auto

text \<open>
  C2, as stated, fails: the pair returned is not the call at 105 with the put at 95, it is
  the call at 110 with the put at 90.
\<close>

theorem strangle_nearest_counterexample:
  "strangle_select exact_distance
     \<lparr>UnderlyingPrice = 100, Contracts =
      [\<lparr>Right = Call, Strike = 105, Expiry = 30\<rparr>, \<lparr>Right = Call, Strike = 110, Expiry = 30\<rparr>,
       \<lparr>Right = Put, Strike = 90, Expiry = 30\<rparr>, \<lparr>Right = Put, Strike = 95, Expiry = 30\<rparr>]\<rparr>
   \<noteq> Some (\<lparr>Right = Call, Strike = 105, Expiry = 30\<rparr>, \<lparr>Right = Put, Strike = 95, Expiry = 30\<rparr>) \<and>
   strangle_select exact_distance
     \<lparr>UnderlyingPrice = 100, Contracts =
      [\<lparr>Right = Call, Strike = 105, Expiry = 30\<rparr>, \<lparr>Right = Call, Strike = 110, Expiry = 30\<rparr>,
       \<lparr>Right = Put, Strike = 90, Expiry = 30\<rparr>, \<lparr>Right = Put, Strike = 95, Expiry = 30\<rparr>]\<rparr>
   = Some (\<lparr>Right = Call, Strike = 110, Expiry = 30\<rparr>, \<lparr>Right = Put, Strike = 90, Expiry = 30\<rparr>)"
  by (simp add: strangle_select_def strangle_groupedContracts_def contracts_def exact_distance_def sorted_py_def
        sorted_py_reverse_def callContracts_def putContracts_def)

section \<open>The straddle policy\<close>

lemma contracts_sorted_key:
  "sorted (map (\<lambda>x. (- Expiry x, d (UnderlyingPrice chain) (Strike x))) (contracts d chain))"
proof -
  have "sorted_wrt (\<lambda>a b. (- Expiry a, d (UnderlyingPrice chain) (Strike a))
                        \<le> (- Expiry b, d (UnderlyingPrice chain) (Strike b))) (contracts d chain)"
    by (rule sorted_wrt_mono_rel [OF _ contracts_lex]) auto
  then show ?thesis by (simp add: sorted_map)
qed

lemma no_equidistant_inj:
  assumes "no_equidistant_strikes d chain"
  shows "inj_on (\<lambda>k. (- snd k, d (UnderlyingPrice chain) (fst k)))
           ((\<lambda>x. (Strike x, Expiry x)) ` set (Contracts chain))"
proof (rule inj_onI)
  fix k k'
  assume k: "k \<in> (\<lambda>x. (Strike x, Expiry x)) ` set (Contracts chain)"
    and k': "k' \<in> (\<lambda>x. (Strike x, Expiry x)) ` set (Contracts chain)"
    and eq: "(- snd k, d (UnderlyingPrice chain) (fst k)) = (- snd k', d (UnderlyingPrice chain) (fst k'))"
  from k obtain x where x: "x \<in> set (Contracts chain)" "k = (Strike x, Expiry x)" by blast
  from k' obtain y where y: "y \<in> set (Contracts chain)" "k' = (Strike y, Expiry y)" by blast
  from eq x(2) y(2) have e: "Expiry x = Expiry y"
    and d: "d (UnderlyingPrice chain) (Strike x) = d (UnderlyingPrice chain) (Strike y)"
    by simp_all
  from assms x(1) y(1) e d have "Strike x = Strike y"
    unfolding no_equidistant_strikes_def by blast
  with e x(2) y(2) show "k = k'" by simp
qed

lemma straddle_groups:
  assumes "no_equidistant_strikes d chain"
  shows "\<forall>p\<in>set (groupby (\<lambda>x. (Strike x, Expiry x)) (contracts d chain)).
       snd p = filter (\<lambda>x. (Strike x, Expiry x) = fst p) (contracts d chain)"
  using groupby_sorted [where h = "\<lambda>k. (- snd k, d (UnderlyingPrice chain) (fst k))"
      and key = "\<lambda>x. (Strike x, Expiry x)" and xs = "contracts d chain"]
    contracts_sorted_key [of d chain] no_equidistant_inj [OF assms]
  by simp

lemma straddle_pick:
  assumes "\<forall>p\<in>set gs. snd p \<noteq> [] \<and> (Strike (hd (snd p)), Expiry (hd (snd p))) = fst p"
  shows "(case (case filter has_call_and_put (map snd gs) of [] \<Rightarrow> [] | grp # _ \<Rightarrow> grp) of
            [] \<Rightarrow> None
          | contract # _ \<Rightarrow> Some (Strike contract, Expiry contract))
         = map_option fst (List.find (\<lambda>p. has_call_and_put (snd p)) gs)"
  using assms
proof (induction gs)
  case Nil
  then show ?case by simp
next
  case (Cons p gs)
  show ?case
  proof (cases "has_call_and_put (snd p)")
    case True
    from Cons.prems have "snd p \<noteq> []" "(Strike (hd (snd p)), Expiry (hd (snd p))) = fst p"
      by simp_all
    then show ?thesis using True by (cases "snd p") simp_all
  next
    case False
    then show ?thesis using Cons by simp
  qed
qed

lemma straddle_select_find:
  "straddle_select d chain =
     map_option fst (List.find (\<lambda>p. has_call_and_put (snd p))
       (groupby (\<lambda>x. (Strike x, Expiry x)) (contracts d chain)))"
  unfolding straddle_select_def straddle_groupedContracts_def
proof (rule straddle_pick, rule ballI)
  fix p assume "p \<in> set (groupby (\<lambda>x. (Strike x, Expiry x)) (contracts d chain))"
  then have "(fst p, snd p) \<in> set (groupby (\<lambda>x. (Strike x, Expiry x)) (contracts d chain))"
    by simp
  from groupby_group [OF this] group_hd [OF this]
  show "snd p \<noteq> [] \<and> (Strike (hd (snd p)), Expiry (hd (snd p))) = fst p" by simp
qed

lemma find_map_pair:
  "map_option fst (List.find (\<lambda>p. P (snd p)) (map (\<lambda>e. (e, F e)) ks)) = List.find (\<lambda>e. P (F e)) ks"
  by (induction ks) simp_all

lemma has_call_and_put_set:
  "has_call_and_put g \<longleftrightarrow> (\<exists>c\<in>set g. Right c = Call) \<and> (\<exists>c\<in>set g. Right c = Put)"
  by (simp add: has_call_and_put_def list_ex_iff)

lemma straddle_select_keys:
  assumes "no_equidistant_strikes d chain"
  shows "straddle_select d chain =
     List.find (\<lambda>e. (\<exists>c\<in>set (Contracts chain). (Strike c, Expiry c) = e \<and> Right c = Call) \<and>
                     (\<exists>c\<in>set (Contracts chain). (Strike c, Expiry c) = e \<and> Right c = Put))
       (map fst (groupby (\<lambda>x. (Strike x, Expiry x)) (contracts d chain)))"
proof -
  let ?gs = "groupby (\<lambda>x. (Strike x, Expiry x)) (contracts d chain)"
  let ?F = "\<lambda>e. filter (\<lambda>x. (Strike x, Expiry x) = e) (contracts d chain)"
  have "?gs = map (\<lambda>e. (e, ?F e)) (map fst ?gs)"
    by (rule groupby_eq_map) (use straddle_groups [OF assms] in blast)
  then have "straddle_select d chain =
      map_option fst (List.find (\<lambda>p. has_call_and_put (snd p)) (map (\<lambda>e. (e, ?F e)) (map fst ?gs)))"
    using straddle_select_find [of d chain] by simp
  also have "\<dots> = List.find (\<lambda>e. has_call_and_put (?F e)) (map fst ?gs)"
    by (rule find_map_pair)
  also have "(\<lambda>e. has_call_and_put (?F e)) =
     (\<lambda>e. (\<exists>c\<in>set (Contracts chain). (Strike c, Expiry c) = e \<and> Right c = Call) \<and>
          (\<exists>c\<in>set (Contracts chain). (Strike c, Expiry c) = e \<and> Right c = Put))"
    by (rule ext) (auto simp: has_call_and_put_set)
  finally show ?thesis .
qed

lemma no_equidistant_cong:
  assumes "UnderlyingPrice chain = UnderlyingPrice chain'"
    and "set (Contracts chain) = set (Contracts chain')"
  shows "no_equidistant_strikes d chain \<longleftrightarrow> no_equidistant_strikes d chain'"
  using assms by (simp add: no_equidistant_strikes_def exact_distance_def)

lemma straddle_select_set_cong:
  assumes "UnderlyingPrice chain = UnderlyingPrice chain'"
    and "set (Contracts chain) = set (Contracts chain')"
    and "no_equidistant_strikes d chain"
  shows "straddle_select d chain = straddle_select d chain'"
proof -
  have ne': "no_equidistant_strikes d chain'"
    using no_equidistant_cong [OF assms(1,2)] assms(3) by simp
  have "map fst (groupby (\<lambda>x. (Strike x, Expiry x)) (contracts d chain)) =
        map fst (groupby (\<lambda>x. (Strike x, Expiry x)) (contracts d chain'))"
    using groupby_keys_unique [where h = "\<lambda>k. (- snd k, d (UnderlyingPrice chain) (fst k))"
        and key = "\<lambda>x. (Strike x, Expiry x)" and xs = "contracts d chain" and ys = "contracts d chain'"]
      contracts_sorted_key [of d chain] contracts_sorted_key [of d chain']
      no_equidistant_inj [OF assms(3)] assms(1,2)
    by simp
  then show ?thesis
    using straddle_select_keys [OF assms(3)] straddle_select_keys [OF ne'] assms(2)
    by simp
qed

text \<open>
  C3 at a failing input. The calls and puts at the strikes 105 and 95 are equally far from
  the price 100 (both differences are exact in floats, and the distance is 5), so the two
  sorts leave them in the order of the chain; enumerated calls
  first, no two neighbours have the same strike, every group is a single contract and no
  straddle is found, although both strikes have a call and a put.
\<close>

theorem straddle_split_groups:
  "map snd (groupby (\<lambda>x. (Strike x, Expiry x)) (contracts exact_distance
     \<lparr>UnderlyingPrice = 100, Contracts =
      [\<lparr>Right = Call, Strike = 105, Expiry = 30\<rparr>, \<lparr>Right = Call, Strike = 95, Expiry = 30\<rparr>,
       \<lparr>Right = Put, Strike = 105, Expiry = 30\<rparr>, \<lparr>Right = Put, Strike = 95, Expiry = 30\<rparr>]\<rparr>))
   = [[\<lparr>Right = Call, Strike = 105, Expiry = 30\<rparr>], [\<lparr>Right = Call, Strike = 95, Expiry = 30\<rparr>],
      [\<lparr>Right = Put, Strike = 105, Expiry = 30\<rparr>], [\<lparr>Right = Put, Strike = 95, Expiry = 30\<rparr>]] \<and>
   straddle_select exact_distance
     \<lparr>UnderlyingPrice = 100, Contracts =
      [\<lparr>Right = Call, Strike = 105, Expiry = 30\<rparr>, \<lparr>Right = Call, Strike = 95, Expiry = 30\<rparr>,
       \<lparr>Right = Put, Strike = 105, Expiry = 30\<rparr>, \<lparr>Right = Put, Strike = 95, Expiry = 30\<rparr>]\<rparr>
   = None"
  by (simp add: straddle_select_def straddle_groupedContracts_def contracts_def
        exact_distance_def sorted_py_def sorted_py_reverse_def has_call_and_put_def)

text \<open>
  X1. For chains without equidistant strikes the groups of the straddle policy are the classes
  of the key (strike, expiry), and no straddle is found exactly when no key has both a
  call and a put.
\<close>

theorem straddle_groups_partition:
  assumes "no_equidistant_strikes d chain"
  shows "(\<forall>p\<in>set (groupby (\<lambda>x. (Strike x, Expiry x)) (contracts d chain)).
       mset (snd p) =
         filter_mset (\<lambda>x. (Strike x, Expiry x) = fst p) (mset (Contracts chain))) \<and>
     distinct (map fst (groupby (\<lambda>x. (Strike x, Expiry x)) (contracts d chain))) \<and>
     (straddle_select d chain = None \<longleftrightarrow>
        \<not> (\<exists>c\<in>set (Contracts chain). \<exists>p\<in>set (Contracts chain).
              Right c = Call \<and> Right p = Put \<and>
              Strike c = Strike p \<and> Expiry c = Expiry p))"
proof (intro conjI)
  let ?key = "\<lambda>x. (Strike x, Expiry x)"
  let ?gs = "groupby ?key (contracts d chain)"
  let ?h = "\<lambda>k. (- snd k, d (UnderlyingPrice chain) (fst k))"
  show "\<forall>p\<in>set ?gs. mset (snd p) = filter_mset (\<lambda>x. ?key x = fst p) (mset (Contracts chain))"
  proof
    fix p assume "p \<in> set ?gs"
    then have "snd p = filter (\<lambda>x. ?key x = fst p) (contracts d chain)"
      using straddle_groups [OF assms] by blast
    then have "mset (snd p) = filter_mset (\<lambda>x. ?key x = fst p) (mset (contracts d chain))"
      by (metis mset_filter)
    then show "mset (snd p) = filter_mset (\<lambda>x. ?key x = fst p) (mset (Contracts chain))"
      by simp
  qed
  have "sorted_wrt (<) (map ?h (map fst ?gs))"
    using groupby_sorted [where h = ?h and key = ?key and xs = "contracts d chain"]
      contracts_sorted_key [of d chain] no_equidistant_inj [OF assms]
    by (simp add: comp_def)
  then have "distinct (map ?h (map fst ?gs))"
    using strict_sorted_iff by blast
  then show "distinct (map fst ?gs)"
    using distinct_map [of ?h "map fst ?gs"] by blast
  have keys: "set (map fst ?gs) = ?key ` set (Contracts chain)"
    using groupby_keys [of ?key "contracts d chain"] by simp
  show "straddle_select d chain = None \<longleftrightarrow>
        \<not> (\<exists>c\<in>set (Contracts chain). \<exists>p\<in>set (Contracts chain).
              Right c = Call \<and> Right p = Put \<and>
              Strike c = Strike p \<and> Expiry c = Expiry p)"
    unfolding straddle_select_keys [OF assms] find_None_iff keys
    by (auto simp: image_iff) metis+
qed

theorem straddle_groups_partition_witness:
  "distinct (map fst (groupby (\<lambda>x. (Strike x, Expiry x)) (contracts exact_distance
     \<lparr>UnderlyingPrice = 100, Contracts =
      [\<lparr>Right = Call, Strike = 100, Expiry = 30\<rparr>, \<lparr>Right = Put, Strike = 100, Expiry = 30\<rparr>,
       \<lparr>Right = Call, Strike = 105, Expiry = 60\<rparr>, \<lparr>Right = Put, Strike = 105, Expiry = 60\<rparr>]\<rparr>)))"
proof -
  have ne: "no_equidistant_strikes exact_distance
     \<lparr>UnderlyingPrice = 100, Contracts =
      [\<lparr>Right = Call, Strike = 100, Expiry = 30\<rparr>, \<lparr>Right = Put, Strike = 100, Expiry = 30\<rparr>,
       \<lparr>Right = Call, Strike = 105, Expiry = 60\<rparr>, \<lparr>Right = Put, Strike = 105, Expiry = 60\<rparr>]\<rparr>"
    by (simp add: no_equidistant_strikes_def exact_distance_def)
  show ?thesis using straddle_groups_partition [OF ne] by blast
qed

section \<open>Which candidate is preferred\<close>










section \<open>Independence of the order of enumeration\<close>

text \<open>
  C7, as amended. Both policies are functions of the enumerated chain, so running one
  twice on the same chain gives the same result. The strangle policy depends on the set of
  contracts only, not on the order of their enumeration: two chains with the same set of
  contracts give the same pair. The straddle policy does not depend on the order of
  enumeration for chains in which no two contracts of one expiry with different strikes
  have the same computed distance from the price of the underlying: two such chains with
  the same set of contracts and the same price of the underlying give the same straddle.
\<close>

theorem selection_order_independent:
  assumes "set (Contracts chain) = set (Contracts chain')"
  shows "strangle_select d chain = strangle_select d chain' \<and>
     (UnderlyingPrice chain = UnderlyingPrice chain' \<and> no_equidistant_strikes d chain \<longrightarrow>
        straddle_select d chain = straddle_select d chain')"
  using strangle_select_set_cong [OF assms] straddle_select_set_cong [OF _ assms]
  by blast

theorem selection_order_independent_witness:
  "strangle_select exact_distance
     \<lparr>UnderlyingPrice = 100, Contracts =
      [\<lparr>Right = Call, Strike = 100, Expiry = 30\<rparr>, \<lparr>Right = Put, Strike = 100, Expiry = 30\<rparr>,
       \<lparr>Right = Call, Strike = 105, Expiry = 60\<rparr>, \<lparr>Right = Put, Strike = 105, Expiry = 60\<rparr>,
       \<lparr>Right = Put, Strike = 90, Expiry = 60\<rparr>]\<rparr>
   = Some (\<lparr>Right = Call, Strike = 105, Expiry = 60\<rparr>, \<lparr>Right = Put, Strike = 90, Expiry = 60\<rparr>) \<and>
   strangle_select exact_distance
     \<lparr>UnderlyingPrice = 100, Contracts =
      [\<lparr>Right = Put, Strike = 90, Expiry = 60\<rparr>, \<lparr>Right = Put, Strike = 105, Expiry = 60\<rparr>,
       \<lparr>Right = Put, Strike = 100, Expiry = 30\<rparr>, \<lparr>Right = Call, Strike = 105, Expiry = 60\<rparr>,
       \<lparr>Right = Call, Strike = 100, Expiry = 30\<rparr>]\<rparr>
   = Some (\<lparr>Right = Call, Strike = 105, Expiry = 60\<rparr>, \<lparr>Right = Put, Strike = 90, Expiry = 60\<rparr>) \<and>
   straddle_select exact_distance
     \<lparr>UnderlyingPrice = 100, Contracts =
      [\<lparr>Right = Call, Strike = 100, Expiry = 30\<rparr>, \<lparr>Right = Put, Strike = 100, Expiry = 30\<rparr>,
       \<lparr>Right = Call, Strike = 105, Expiry = 60\<rparr>, \<lparr>Right = Put, Strike = 105, Expiry = 60\<rparr>,
       \<lparr>Right = Put, Strike = 90, Expiry = 60\<rparr>]\<rparr>
   = Some (105, 60) \<and>
   straddle_select exact_distance
     \<lparr>UnderlyingPrice = 100, Contracts =
      [\<lparr>Right = Put, Strike = 90, Expiry = 60\<rparr>, \<lparr>Right = Put, Strike = 105, Expiry = 60\<rparr>,
       \<lparr>Right = Put, Strike = 100, Expiry = 30\<rparr>, \<lparr>Right = Call, Strike = 105, Expiry = 60\<rparr>,
       \<lparr>Right = Call, Strike = 100, Expiry = 30\<rparr>]\<rparr>
   = Some (105, 60)"
proof -
  have ne: "no_equidistant_strikes exact_distance
     \<lparr>UnderlyingPrice = 100, Contracts =
      [\<lparr>Right = Call, Strike = 100, Expiry = 30\<rparr>, \<lparr>Right = Put, Strike = 100, Expiry = 30\<rparr>,
       \<lparr>Right = Call, Strike = 105, Expiry = 60\<rparr>, \<lparr>Right = Put, Strike = 105, Expiry = 60\<rparr>,
       \<lparr>Right = Put, Strike = 90, Expiry = 60\<rparr>]\<rparr>"
    by (simp add: no_equidistant_strikes_def exact_distance_def)
  have s: "set (Contracts
     \<lparr>UnderlyingPrice = 100, Contracts =
      [\<lparr>Right = Call, Strike = 100, Expiry = 30\<rparr>, \<lparr>Right = Put, Strike = 100, Expiry = 30\<rparr>,
       \<lparr>Right = Call, Strike = 105, Expiry = 60\<rparr>, \<lparr>Right = Put, Strike = 105, Expiry = 60\<rparr>,
       \<lparr>Right = Put, Strike = 90, Expiry = 60\<rparr>]\<rparr>)
    = set (Contracts
     \<lparr>UnderlyingPrice = 100, Contracts =
      [\<lparr>Right = Put, Strike = 90, Expiry = 60\<rparr>, \<lparr>Right = Put, Strike = 105, Expiry = 60\<rparr>,
       \<lparr>Right = Put, Strike = 100, Expiry = 30\<rparr>, \<lparr>Right = Call, Strike = 105, Expiry = 60\<rparr>,
       \<lparr>Right = Call, Strike = 100, Expiry = 30\<rparr>]\<rparr>)"
    by auto
  have g: "strangle_select exact_distance
     \<lparr>UnderlyingPrice = 100, Contracts =
      [\<lparr>Right = Call, Strike = 100, Expiry = 30\<rparr>, \<lparr>Right = Put, Strike = 100, Expiry = 30\<rparr>,
       \<lparr>Right = Call, Strike = 105, Expiry = 60\<rparr>, \<lparr>Right = Put, Strike = 105, Expiry = 60\<rparr>,
       \<lparr>Right = Put, Strike = 90, Expiry = 60\<rparr>]\<rparr>
   = Some (\<lparr>Right = Call, Strike = 105, Expiry = 60\<rparr>, \<lparr>Right = Put, Strike = 90, Expiry = 60\<rparr>)"
    by (simp add: strangle_select_def strangle_groupedContracts_def contracts_def exact_distance_def
        sorted_py_def sorted_py_reverse_def callContracts_def putContracts_def)
  have t: "straddle_select exact_distance
     \<lparr>UnderlyingPrice = 100, Contracts =
      [\<lparr>Right = Call, Strike = 100, Expiry = 30\<rparr>, \<lparr>Right = Put, Strike = 100, Expiry = 30\<rparr>,
       \<lparr>Right = Call, Strike = 105, Expiry = 60\<rparr>, \<lparr>Right = Put, Strike = 105, Expiry = 60\<rparr>,
       \<lparr>Right = Put, Strike = 90, Expiry = 60\<rparr>]\<rparr>
   = Some (105, 60)"
    by (simp add: straddle_select_def straddle_groupedContracts_def contracts_def exact_distance_def
        sorted_py_def sorted_py_reverse_def has_call_and_put_def)
  from selection_order_independent [OF s, of exact_distance] ne
  have "strangle_select exact_distance
     \<lparr>UnderlyingPrice = 100, Contracts =
      [\<lparr>Right = Call, Strike = 100, Expiry = 30\<rparr>, \<lparr>Right = Put, Strike = 100, Expiry = 30\<rparr>,
       \<lparr>Right = Call, Strike = 105, Expiry = 60\<rparr>, \<lparr>Right = Put, Strike = 105, Expiry = 60\<rparr>,
       \<lparr>Right = Put, Strike = 90, Expiry = 60\<rparr>]\<rparr>
   = strangle_select exact_distance
     \<lparr>UnderlyingPrice = 100, Contracts =
      [\<lparr>Right = Put, Strike = 90, Expiry = 60\<rparr>, \<lparr>Right = Put, Strike = 105, Expiry = 60\<rparr>,
       \<lparr>Right = Put, Strike = 100, Expiry = 30\<rparr>, \<lparr>Right = Call, Strike = 105, Expiry = 60\<rparr>,
       \<lparr>Right = Call, Strike = 100, Expiry = 30\<rparr>]\<rparr>"
    and "straddle_select exact_distance
     \<lparr>UnderlyingPrice = 100, Contracts =
      [\<lparr>Right = Call, Strike = 100, Expiry = 30\<rparr>, \<lparr>Right = Put, Strike = 100, Expiry = 30\<rparr>,
       \<lparr>Right = Call, Strike = 105, Expiry = 60\<rparr>, \<lparr>Right = Put, Strike = 105, Expiry = 60\<rparr>,
       \<lparr>Right = Put, Strike = 90, Expiry = 60\<rparr>]\<rparr>
   = straddle_select exact_distance
     \<lparr>UnderlyingPrice = 100, Contracts =
      [\<lparr>Right = Put, Strike = 90, Expiry = 60\<rparr>, \<lparr>Right = Put, Strike = 105, Expiry = 60\<rparr>,
       \<lparr>Right = Put, Strike = 100, Expiry = 30\<rparr>, \<lparr>Right = Call, Strike = 105, Expiry = 60\<rparr>,
       \<lparr>Right = Call, Strike = 100, Expiry = 30\<rparr>]\<rparr>"
    by simp_all
  with g t show ?thesis by simp
qed

text \<open>
  C7, as stated, fails for the straddle policy: two enumerations of the same four
  contracts, with the same price of the underlying, give different straddles. (The
  differences 100 - 105 and 100 - 95 are exact in floats.)
\<close>

theorem straddle_order_counterexample:
  "set (Contracts
     \<lparr>UnderlyingPrice = 100, Contracts =
      [\<lparr>Right = Call, Strike = 105, Expiry = 30\<rparr>, \<lparr>Right = Put, Strike = 105, Expiry = 30\<rparr>,
       \<lparr>Right = Call, Strike = 95, Expiry = 30\<rparr>, \<lparr>Right = Put, Strike = 95, Expiry = 30\<rparr>]\<rparr>)
   = set (Contracts
     \<lparr>UnderlyingPrice = 100, Contracts =
      [\<lparr>Right = Call, Strike = 95, Expiry = 30\<rparr>, \<lparr>Right = Put, Strike = 95, Expiry = 30\<rparr>,
       \<lparr>Right = Call, Strike = 105, Expiry = 30\<rparr>, \<lparr>Right = Put, Strike = 105, Expiry = 30\<rparr>]\<rparr>) \<and>
   straddle_select exact_distance
     \<lparr>UnderlyingPrice = 100, Contracts =
      [\<lparr>Right = Call, Strike = 105, Expiry = 30\<rparr>, \<lparr>Right = Put, Strike = 105, Expiry = 30\<rparr>,
       \<lparr>Right = Call, Strike = 95, Expiry = 30\<rparr>, \<lparr>Right = Put, Strike = 95, Expiry = 30\<rparr>]\<rparr>
   = Some (105, 30) \<and>
   straddle_select exact_distance
     \<lparr>UnderlyingPrice = 100, Contracts =
      [\<lparr>Right = Call, Strike = 95, Expiry = 30\<rparr>, \<lparr>Right = Put, Strike = 95, Expiry = 30\<rparr>,
       \<lparr>Right = Call, Strike = 105, Expiry = 30\<rparr>, \<lparr>Right = Put, Strike = 105, Expiry = 30\<rparr>]\<rparr>
   = Some (95, 30)"
proof (intro conjI)
  show "set (Contracts
     \<lparr>UnderlyingPrice = 100, Contracts =
      [\<lparr>Right = Call, Strike = 105, Expiry = 30\<rparr>, \<lparr>Right = Put, Strike = 105, Expiry = 30\<rparr>,
       \<lparr>Right = Call, Strike = 95, Expiry = 30\<rparr>, \<lparr>Right = Put, Strike = 95, Expiry = 30\<rparr>]\<rparr>)
   = set (Contracts
     \<lparr>UnderlyingPrice = 100, Contracts =
      [\<lparr>Right = Call, Strike = 95, Expiry = 30\<rparr>, \<lparr>Right = Put, Strike = 95, Expiry = 30\<rparr>,
       \<lparr>Right = Call, Strike = 105, Expiry = 30\<rparr>, \<lparr>Right = Put, Strike = 105, Expiry = 30\<rparr>]\<rparr>)"
    by auto
  show "straddle_select exact_distance
     \<lparr>UnderlyingPrice = 100, Contracts =
      [\<lparr>Right = Call, Strike = 105, Expiry = 30\<rparr>, \<lparr>Right = Put, Strike = 105, Expiry = 30\<rparr>,
       \<lparr>Right = Call, Strike = 95, Expiry = 30\<rparr>, \<lparr>Right = Put, Strike = 95, Expiry = 30\<rparr>]\<rparr>
   = Some (105, 30)"
    by (simp add: straddle_select_def straddle_groupedContracts_def contracts_def exact_distance_def
        sorted_py_def sorted_py_reverse_def has_call_and_put_def)
  show "straddle_select exact_distance
     \<lparr>UnderlyingPrice = 100, Contracts =
      [\<lparr>Right = Call, Strike = 95, Expiry = 30\<rparr>, \<lparr>Right = Put, Strike = 95, Expiry = 30\<rparr>,
       \<lparr>Right = Call, Strike = 105, Expiry = 30\<rparr>, \<lparr>Right = Put, Strike = 105, Expiry = 30\<rparr>]\<rparr>
   = Some (95, 30)"
    by (simp add: straddle_select_def straddle_groupedContracts_def contracts_def exact_distance_def
        sorted_py_def sorted_py_reverse_def has_call_and_put_def)
qed

section \<open>The end-of-run check\<close>

lemma orders_count_count_list: "orders_count s = count_list (Orders s) Filled"
proof -
  have "length (filter (\<lambda>status. status = Filled) xs) = count_list xs Filled" for xs
    by (induction xs) simp_all
  then show ?thesis by (simp add: orders_count_def)
qed

text \<open>
  C8. The end-of-run check fails exactly when a position remains open or the number of
  orders whose status is \<open>Filled\<close> is not 4; orders of any other status are not counted.
  The two violations are different failures, and a run that is still invested reports the
  residual position whatever its number of filled orders.
\<close>

theorem OnEndOfAlgorithm_failures:
  "(OnEndOfAlgorithm s \<noteq> Inr () \<longleftrightarrow> Invested s \<or> count_list (Orders s) Filled \<noteq> 4) \<and>
   (Invested s \<longrightarrow> OnEndOfAlgorithm s = Inl RESIDUAL_POSITION) \<and>
   (\<not> Invested s \<and> count_list (Orders s) Filled \<noteq> 4 \<longrightarrow>
      OnEndOfAlgorithm s = Inl (ORDER_COUNT_MISMATCH (count_list (Orders s) Filled))) \<and>
   (\<forall>n. RESIDUAL_POSITION \<noteq> ORDER_COUNT_MISMATCH n)"
  by (simp add: OnEndOfAlgorithm_def orders_count_count_list)

theorem OnEndOfAlgorithm_failures_witness:
  "OnEndOfAlgorithm \<lparr>Invested = True, Orders = [Filled, Filled, Filled, Filled]\<rparr>
     = Inl RESIDUAL_POSITION \<and>
   OnEndOfAlgorithm \<lparr>Invested = False, Orders = [Filled, Canceled, Filled, Invalid]\<rparr>
     = Inl (ORDER_COUNT_MISMATCH 2) \<and>
   OnEndOfAlgorithm
     \<lparr>Invested = False, Orders = [Filled, Canceled, Filled, Filled, Submitted, Filled]\<rparr>
     = Inr ()"
  using OnEndOfAlgorithm_failures
    [of "\<lparr>Invested = True, Orders = [Filled, Filled, Filled, Filled]\<rparr>"]
    OnEndOfAlgorithm_failures
    [of "\<lparr>Invested = False, Orders = [Filled, Canceled, Filled, Invalid]\<rparr>"]
    OnEndOfAlgorithm_failures
    [of "\<lparr>Invested = False, Orders = [Filled, Canceled, Filled, Filled, Submitted, Filled]\<rparr>"]
  by simp

section \<open>The verifier\<close>

lemma two_legs: "length xs = 2 \<Longrightarrow> \<exists>a b. xs = [a, b]"
  by (cases xs; cases "tl xs") auto

lemma list_ex_next_or_None: "list_ex P xs \<longleftrightarrow> next_or_None P xs \<noteq> None"
  by (auto simp: next_or_None_def find_None_iff list_ex_iff)

text \<open>
  C4, as amended. The verifier does not collect failures: it raises at the first check
  that fails. Whatever the group and the expected quantities, what it reports is the first
  element of the list of all failing checks, and nothing when that list is empty; a group
  that violates several checks yields one failure only.
\<close>

theorem verify_reports_first_only:
  "reported (verify_position_group ec ep g) = take 1 (failing_checks ec ep g)"
  by (simp add: reported_def verify_position_group_def failing_checks_def
           split: option.splits)

theorem verify_reports_first_only_witness:
  "reported (verify_position_group 2 2
     \<lparr>GroupBuyingPowerModel = OptionStrategyPositionGroupBuyingPowerModel,
      Positions = [\<lparr>SymbolOptionRight = Call, Quantity = 1\<rparr>,
                   \<lparr>SymbolOptionRight = Put, Quantity = 3\<rparr>]\<rparr>) = [QUANTITY_MISMATCH Call 2 1]"
  unfolding verify_reports_first_only
  by (simp add: failing_checks_def next_or_None_def)

text \<open>
  C4, as stated, fails: on a group with the wrong buying power model and three positions
  two checks fail, and the verifier raises for the first one only.
\<close>

theorem verify_collects_all_counterexample:
  "verify_position_group 2 2
     \<lparr>GroupBuyingPowerModel = OtherBuyingPowerModel ''SecurityPositionGroupBuyingPowerModel'',
      Positions = [\<lparr>SymbolOptionRight = Call, Quantity = 2\<rparr>,
                   \<lparr>SymbolOptionRight = Put, Quantity = 2\<rparr>,
                   \<lparr>SymbolOptionRight = Call, Quantity = 1\<rparr>]\<rparr>
     = Inl (MISMATCHED_ACCOUNTING_MODEL (OtherBuyingPowerModel ''SecurityPositionGroupBuyingPowerModel'')) \<and>
   failing_checks 2 2
     \<lparr>GroupBuyingPowerModel = OtherBuyingPowerModel ''SecurityPositionGroupBuyingPowerModel'',
      Positions = [\<lparr>SymbolOptionRight = Call, Quantity = 2\<rparr>,
                   \<lparr>SymbolOptionRight = Put, Quantity = 2\<rparr>,
                   \<lparr>SymbolOptionRight = Call, Quantity = 1\<rparr>]\<rparr>
     = [MISMATCHED_ACCOUNTING_MODEL (OtherBuyingPowerModel ''SecurityPositionGroupBuyingPowerModel''),
        UNEXPECTED_LEG_COUNT 3]"
  by (simp add: verify_position_group_def failing_checks_def next_or_None_def)

text \<open>
  C5. The verifier succeeds if and only if the buying power model is the expected one, the
  group has exactly two positions, exactly one of them is a call and exactly one a put,
  every call position has the expected call quantity and every put position the expected
  put quantity. The group of a call and a put of quantity 2 each, with the expected model,
  passes the verification of the source, whose expected quantities are 2 and 2.
\<close>

theorem verify_Ok_iff:
  "(verify_position_group ec ep g = Inr () \<longleftrightarrow>
      GroupBuyingPowerModel g = OptionStrategyPositionGroupBuyingPowerModel \<and>
      length (Positions g) = 2 \<and>
      length (filter (\<lambda>l. SymbolOptionRight l = Call) (Positions g)) = 1 \<and>
      length (filter (\<lambda>l. SymbolOptionRight l = Put) (Positions g)) = 1 \<and>
      list_all (\<lambda>l. SymbolOptionRight l = Call \<longrightarrow> Quantity l = ec) (Positions g) \<and>
      list_all (\<lambda>l. SymbolOptionRight l = Put \<longrightarrow> Quantity l = ep) (Positions g)) \<and>
   OnData_verify
     \<lparr>GroupBuyingPowerModel = OptionStrategyPositionGroupBuyingPowerModel,
      Positions = [\<lparr>SymbolOptionRight = Call, Quantity = 2\<rparr>,
                   \<lparr>SymbolOptionRight = Put, Quantity = 2\<rparr>]\<rparr> = Inr ()"
proof (intro conjI)
  show "verify_position_group ec ep g = Inr () \<longleftrightarrow>
      GroupBuyingPowerModel g = OptionStrategyPositionGroupBuyingPowerModel \<and>
      length (Positions g) = 2 \<and>
      length (filter (\<lambda>l. SymbolOptionRight l = Call) (Positions g)) = 1 \<and>
      length (filter (\<lambda>l. SymbolOptionRight l = Put) (Positions g)) = 1 \<and>
      list_all (\<lambda>l. SymbolOptionRight l = Call \<longrightarrow> Quantity l = ec) (Positions g) \<and>
      list_all (\<lambda>l. SymbolOptionRight l = Put \<longrightarrow> Quantity l = ep) (Positions g)"
  proof (cases "length (Positions g) = 2")
    case True
    then obtain a b where ab: "Positions g = [a, b]" using two_legs by blast
    show ?thesis
      by (cases "SymbolOptionRight a"; cases "SymbolOptionRight b")
         (auto simp: verify_position_group_def next_or_None_def ab)
  next
    case False
    then show ?thesis by (simp add: verify_position_group_def)
  qed
  show "OnData_verify
     \<lparr>GroupBuyingPowerModel = OptionStrategyPositionGroupBuyingPowerModel,
      Positions = [\<lparr>SymbolOptionRight = Call, Quantity = 2\<rparr>,
                   \<lparr>SymbolOptionRight = Put, Quantity = 2\<rparr>]\<rparr> = Inr ()"
    by (simp add: OnData_verify_def verify_position_group_def next_or_None_def)
qed

theorem verify_Ok_iff_witness:
  "verify_position_group 2 3
     \<lparr>GroupBuyingPowerModel = OptionStrategyPositionGroupBuyingPowerModel,
      Positions = [\<lparr>SymbolOptionRight = Call, Quantity = 2\<rparr>,
                   \<lparr>SymbolOptionRight = Put, Quantity = 2\<rparr>]\<rparr> \<noteq> Inr ()"
  using verify_Ok_iff [of 2 3 "\<lparr>GroupBuyingPowerModel = OptionStrategyPositionGroupBuyingPowerModel,
      Positions = [\<lparr>SymbolOptionRight = Call, Quantity = 2\<rparr>,
                   \<lparr>SymbolOptionRight = Put, Quantity = 2\<rparr>]\<rparr>"]
  by simp

text \<open>
  C9. The checks run in a fixed order and the first failing one is the one raised: the
  buying power model, then the number of positions, then the presence of a call, then of
  a put, then the quantity of the first call, then the quantity of the first put. Each
  failure is raised exactly when its check fails and every earlier check passes. The later
  checks are not evaluated: when the model is wrong the result does not depend on the
  positions or on the expected quantities, and when the number of positions is wrong it
  depends on that number only.
\<close>

theorem verify_first_failure:
  "(verify_position_group ec ep g = Inl (MISMATCHED_ACCOUNTING_MODEL m) \<longleftrightarrow>
      GroupBuyingPowerModel g \<noteq> OptionStrategyPositionGroupBuyingPowerModel \<and>
      m = GroupBuyingPowerModel g) \<and>
   (verify_position_group ec ep g = Inl (UNEXPECTED_LEG_COUNT n) \<longleftrightarrow>
      GroupBuyingPowerModel g = OptionStrategyPositionGroupBuyingPowerModel \<and>
      length (Positions g) \<noteq> 2 \<and> n = length (Positions g)) \<and>
   (verify_position_group ec ep g = Inl (MISSING_LEG Call) \<longleftrightarrow>
      GroupBuyingPowerModel g = OptionStrategyPositionGroupBuyingPowerModel \<and>
      length (Positions g) = 2 \<and>
      \<not> list_ex (\<lambda>l. SymbolOptionRight l = Call) (Positions g)) \<and>
   (verify_position_group ec ep g = Inl (MISSING_LEG Put) \<longleftrightarrow>
      GroupBuyingPowerModel g = OptionStrategyPositionGroupBuyingPowerModel \<and>
      length (Positions g) = 2 \<and>
      list_ex (\<lambda>l. SymbolOptionRight l = Call) (Positions g) \<and>
      \<not> list_ex (\<lambda>l. SymbolOptionRight l = Put) (Positions g)) \<and>
   (verify_position_group ec ep g = Inl (QUANTITY_MISMATCH Call e a) \<longleftrightarrow>
      GroupBuyingPowerModel g = OptionStrategyPositionGroupBuyingPowerModel \<and>
      length (Positions g) = 2 \<and>
      list_ex (\<lambda>l. SymbolOptionRight l = Put) (Positions g) \<and>
      (\<exists>c. next_or_None (\<lambda>l. SymbolOptionRight l = Call) (Positions g) = Some c \<and>
           Quantity c \<noteq> ec \<and> e = ec \<and> a = Quantity c)) \<and>
   (verify_position_group ec ep g = Inl (QUANTITY_MISMATCH Put e a) \<longleftrightarrow>
      GroupBuyingPowerModel g = OptionStrategyPositionGroupBuyingPowerModel \<and>
      length (Positions g) = 2 \<and>
      (\<exists>c. next_or_None (\<lambda>l. SymbolOptionRight l = Call) (Positions g) = Some c \<and>
           Quantity c = ec) \<and>
      (\<exists>p. next_or_None (\<lambda>l. SymbolOptionRight l = Put) (Positions g) = Some p \<and>
           Quantity p \<noteq> ep \<and> e = ep \<and> a = Quantity p)) \<and>
   (GroupBuyingPowerModel g \<noteq> OptionStrategyPositionGroupBuyingPowerModel \<longrightarrow>
      verify_position_group ec' ep' (g\<lparr>Positions := ps\<rparr>) = verify_position_group ec ep g) \<and>
   (length (Positions g) \<noteq> 2 \<and> length ps = length (Positions g) \<longrightarrow>
      verify_position_group ec' ep' (g\<lparr>Positions := ps\<rparr>) = verify_position_group ec ep g)"
  by (cases "next_or_None (\<lambda>l. SymbolOptionRight l = Call) (Positions g)";
      cases "next_or_None (\<lambda>l. SymbolOptionRight l = Put) (Positions g)")
     (auto simp: verify_position_group_def list_ex_next_or_None)

theorem verify_first_failure_witness:
  "verify_position_group 2 2
     \<lparr>GroupBuyingPowerModel = OptionStrategyPositionGroupBuyingPowerModel,
      Positions = [\<lparr>SymbolOptionRight = Put, Quantity = 5\<rparr>,
                   \<lparr>SymbolOptionRight = Put, Quantity = 7\<rparr>]\<rparr> = Inl (MISSING_LEG Call) \<and>
   verify_position_group 2 2
     \<lparr>GroupBuyingPowerModel = OtherBuyingPowerModel ''SecurityPositionGroupBuyingPowerModel'',
      Positions = [\<lparr>SymbolOptionRight = Call, Quantity = 2\<rparr>,
                   \<lparr>SymbolOptionRight = Put, Quantity = 2\<rparr>,
                   \<lparr>SymbolOptionRight = Call, Quantity = 1\<rparr>]\<rparr>
     = Inl (MISMATCHED_ACCOUNTING_MODEL (OtherBuyingPowerModel ''SecurityPositionGroupBuyingPowerModel''))"
  using verify_first_failure [of 2 2 "\<lparr>GroupBuyingPowerModel = OptionStrategyPositionGroupBuyingPowerModel,
      Positions = [\<lparr>SymbolOptionRight = Put, Quantity = 5\<rparr>,
                   \<lparr>SymbolOptionRight = Put, Quantity = 7\<rparr>]\<rparr>"]
    verify_first_failure [of 2 2 "\<lparr>GroupBuyingPowerModel = OtherBuyingPowerModel ''SecurityPositionGroupBuyingPowerModel'',
      Positions = [\<lparr>SymbolOptionRight = Call, Quantity = 2\<rparr>,
                   \<lparr>SymbolOptionRight = Put, Quantity = 2\<rparr>,
                   \<lparr>SymbolOptionRight = Call, Quantity = 1\<rparr>]\<rparr>"
       "OtherBuyingPowerModel ''SecurityPositionGroupBuyingPowerModel''"]
  by simp

end
